theory Spec2Isabelle
  imports Complex_Main "HOL-Library.AList"
begin

section \<open>Blink-PIN registration: constants\<close>

text \<open>
  The constants of \<^verbatim>\<open>blink_utils.py\<close>. EAR samples, timestamps and durations are Python
  floats in the source; they are modelled as reals, so the comparisons below are the
  source's comparisons read on exact values and no rounding is modelled.
\<close>

definition EAR_THRESHOLD :: real where
  "EAR_THRESHOLD = 0.25"

definition BLINK_DURATION_THRESHOLD :: real where
  "BLINK_DURATION_THRESHOLD = 0.4"

definition MIN_BLINK_INTERVAL :: real where
  "MIN_BLINK_INTERVAL = 0.5"

definition CONSEC_FRAMES :: nat where
  "CONSEC_FRAMES = 3"

definition MAX_BLINKS :: nat where
  "MAX_BLINKS = 4"

text \<open>
  The only strings ever appended to \<^verbatim>\<open>blink_sequence\<close> are \<^verbatim>\<open>"quick"\<close> and
  \<^verbatim>\<open>"long"\<close>, the two keys of \<^verbatim>\<open>BLINK_TO_DIGIT\<close>.
\<close>

datatype blink_type = Quick | Long

fun BLINK_TO_DIGIT :: "blink_type \<Rightarrow> char" where
  "BLINK_TO_DIGIT Quick = CHR ''0''"
| "BLINK_TO_DIGIT Long = CHR ''1''"

section \<open>Floating-point values\<close>

text \<open>
  \<^verbatim>\<open>calculate_ear\<close> computes in NumPy's \<^verbatim>\<open>float32\<close> and the smoother in Python's
  floats (binary64). A floating-point value is a finite real, an infinity or not-a-number.
  The sign of zero is not kept: both zeros are \<open>Fin 0\<close>, and they compare equal in the
  source's test \<^verbatim>\<open>C == 0\<close>.
\<close>

datatype fl = Fin real | PInf | NInf | NaN

definition pow2 :: "int \<Rightarrow> real" where
  "pow2 k = (if 0 \<le> k then 2 ^ nat k else 1 / 2 ^ nat (- k))"

text \<open>The number of binary digits of a natural number.\<close>

fun bits :: "nat \<Rightarrow> nat" where
  "bits n = (if n = 0 then 0 else Suc (bits (n div 2)))"

declare bits.simps [simp del]

text \<open>The binary exponent of a non-zero real: the \<open>e\<close> with \<open>2\<^sup>e \<le> \<bar>x\<bar> < 2\<^sup>e\<^sup>+\<^sup>1\<close>.\<close>

definition expo :: "real \<Rightarrow> int" where
  "expo x = (if 1 \<le> \<bar>x\<bar> then int (bits (nat \<lfloor>\<bar>x\<bar>\<rfloor>)) - 1
             else - int (bits (nat (\<lceil>1 / \<bar>x\<bar>\<rceil> - 1))))"

text \<open>Rounding a real to the nearest integer, a tie going to the even one.\<close>

definition rne :: "real \<Rightarrow> int" where
  "rne y = (let f = \<lfloor>y\<rfloor>; d = y - of_int f in
            if d < 1 / 2 then f else if 1 / 2 < d then f + 1
            else if even f then f else f + 1)"

text \<open>
  Rounding to nearest (ties to even) in a binary format with \<open>p\<close> significant bits and
  exponents from \<open>emin\<close> to \<open>emax\<close>: the spacing of the format's values around \<open>x\<close> is
  \<open>2\<close> to the power \<open>max (expo x) emin - p + 1\<close>, which covers the subnormal range, and a
  result of magnitude \<open>2\<close> to the power \<open>emax + 1\<close> or more overflows to an infinity.
\<close>

definition rnd :: "nat \<Rightarrow> int \<Rightarrow> int \<Rightarrow> real \<Rightarrow> fl" where
  "rnd p emin emax x =
     (if x = 0 then Fin 0
      else
        (let q = pow2 (max (expo x) emin - int p + 1);
             r = of_int (rne (x / q)) * q
         in if pow2 (emax + 1) \<le> \<bar>r\<bar> then (if 0 < x then PInf else NInf) else Fin r))"

definition rnd32 :: "real \<Rightarrow> fl" where
  "rnd32 = rnd 24 (- 126) 127"

definition rnd64 :: "real \<Rightarrow> fl" where
  "rnd64 = rnd 53 (- 1022) 1023"

text \<open>
  The arithmetic of IEEE 754, each operation rounded by \<open>r\<close>; the cases are read in
  order.
\<close>

fun fadd :: "(real \<Rightarrow> fl) \<Rightarrow> fl \<Rightarrow> fl \<Rightarrow> fl" where
  "fadd r (Fin x) (Fin y) = r (x + y)"
| "fadd r NaN _ = NaN"
| "fadd r _ NaN = NaN"
| "fadd r PInf NInf = NaN"
| "fadd r NInf PInf = NaN"
| "fadd r PInf _ = PInf"
| "fadd r NInf _ = NInf"
| "fadd r _ PInf = PInf"
| "fadd r _ NInf = NInf"

fun fsub :: "(real \<Rightarrow> fl) \<Rightarrow> fl \<Rightarrow> fl \<Rightarrow> fl" where
  "fsub r (Fin x) (Fin y) = r (x - y)"
| "fsub r NaN _ = NaN"
| "fsub r _ NaN = NaN"
| "fsub r PInf PInf = NaN"
| "fsub r NInf NInf = NaN"
| "fsub r PInf _ = PInf"
| "fsub r NInf _ = NInf"
| "fsub r _ PInf = NInf"
| "fsub r _ NInf = PInf"

fun fmul :: "(real \<Rightarrow> fl) \<Rightarrow> fl \<Rightarrow> fl \<Rightarrow> fl" where
  "fmul r (Fin x) (Fin y) = r (x * y)"
| "fmul r NaN _ = NaN"
| "fmul r _ NaN = NaN"
| "fmul r (Fin x) PInf = (if x = 0 then NaN else if 0 < x then PInf else NInf)"
| "fmul r (Fin x) NInf = (if x = 0 then NaN else if 0 < x then NInf else PInf)"
| "fmul r PInf (Fin y) = (if y = 0 then NaN else if 0 < y then PInf else NInf)"
| "fmul r NInf (Fin y) = (if y = 0 then NaN else if 0 < y then NInf else PInf)"
| "fmul r PInf PInf = PInf"
| "fmul r NInf NInf = PInf"
| "fmul r PInf NInf = NInf"
| "fmul r NInf PInf = NInf"

text \<open>
  Division. A finite non-zero value over zero is an infinity; its sign is taken from the
  numerator, the zero being read as positive.
\<close>

fun fdiv :: "(real \<Rightarrow> fl) \<Rightarrow> fl \<Rightarrow> fl \<Rightarrow> fl" where
  "fdiv r (Fin x) (Fin y) =
     (if y = 0 then (if x = 0 then NaN else if 0 < x then PInf else NInf) else r (x / y))"
| "fdiv r NaN _ = NaN"
| "fdiv r _ NaN = NaN"
| "fdiv r (Fin x) _ = Fin 0"
| "fdiv r PInf (Fin y) = (if 0 \<le> y then PInf else NInf)"
| "fdiv r NInf (Fin y) = (if 0 \<le> y then NInf else PInf)"
| "fdiv r _ _ = NaN"

fun fsqrt :: "(real \<Rightarrow> fl) \<Rightarrow> fl \<Rightarrow> fl" where
  "fsqrt r (Fin x) = (if x < 0 then NaN else r (sqrt x))"
| "fsqrt r PInf = PInf"
| "fsqrt r _ = NaN"

section \<open>The blink detector of \<^verbatim>\<open>register_pin.main\<close>\<close>

text \<open>
  The local variables of \<^verbatim>\<open>main\<close> that survive from one frame to the next
  (lines 58 to 64). \<^verbatim>\<open>frame_counter\<close> only drives a debug print and is left out.
\<close>

record capture =
  blink_sequence :: "blink_type list"
  ear_history :: "fl list"
  is_blinking :: bool
  blink_start_time :: real
  last_blink_time :: real
  consec_blinks :: nat

definition init_capture :: capture where
  "init_capture =
     \<lparr>blink_sequence = [], ear_history = [], is_blinking = False,
      blink_start_time = 0, last_blink_time = 0, consec_blinks = 0\<rparr>"

text \<open>
  What one frame of blink detection does that an observer can see: nothing, the
  \<^verbatim>\<open>[BLINK START]\<close> print, the \<^verbatim>\<open>[DETECTED]\<close> print (blink type, duration, digit), or
  a blink that ends while the sequence is already full (the duration is computed, nothing
  is printed or appended).
\<close>

datatype outcome =
  Idle
| BlinkStart
| Detected blink_type real char
| Ignored real

text \<open>Lines 130 to 137: the duration test that chooses blink type and digit.\<close>

definition classify :: "real \<Rightarrow> blink_type \<times> char" where
  "classify blink_duration =
     (if blink_duration < BLINK_DURATION_THRESHOLD then (Quick, CHR ''0'')
      else (Long, CHR ''1''))"

text \<open>Lines 107 to 155, for one smoothed sample and its timestamp.\<close>

definition blink_detect :: "real \<Rightarrow> real \<Rightarrow> capture \<Rightarrow> capture \<times> outcome" where
  "blink_detect smooth_ear current_time s =
     (if smooth_ear < EAR_THRESHOLD then
        (let s1 = s\<lparr>consec_blinks := consec_blinks s + 1\<rparr> in
         if \<not> is_blinking s1 \<and> CONSEC_FRAMES \<le> consec_blinks s1 then
           (if MIN_BLINK_INTERVAL < current_time - last_blink_time s1 then
              (s1\<lparr>is_blinking := True, blink_start_time := current_time\<rparr>, BlinkStart)
            else (s1, Idle))
         else (s1, Idle))
      else
        (let s1 = s\<lparr>consec_blinks := 0\<rparr> in
         if is_blinking s1 then
           (let blink_duration = current_time - blink_start_time s1 in
            if length (blink_sequence s1) < MAX_BLINKS then
              (case classify blink_duration of (bt, digit) \<Rightarrow>
                 (s1\<lparr>blink_sequence := blink_sequence s1 @ [bt],
                     last_blink_time := current_time,
                     is_blinking := False\<rparr>,
                  Detected bt blink_duration digit))
            else (s1\<lparr>is_blinking := False\<rparr>, Ignored blink_duration))
         else (s1, Idle)))"

text \<open>
  The detector run over a stream of (smoothed sample, timestamp) pairs, collecting what
  each frame did.
\<close>

fun run_detect :: "capture \<Rightarrow> (real \<times> real) list \<Rightarrow> capture \<times> outcome list" where
  "run_detect s [] = (s, [])"
| "run_detect s ((e, t) # fs) =
     (case blink_detect e t s of (s1, out) \<Rightarrow>
        (case run_detect s1 fs of (s2, outs) \<Rightarrow> (s2, out # outs)))"

text \<open>A blink event is a frame on which a confirmed closure ends.\<close>

fun is_event :: "outcome \<Rightarrow> bool" where
  "is_event (Detected _ _ _) = True"
| "is_event (Ignored _) = True"
| "is_event _ = False"

fun is_detected :: "outcome \<Rightarrow> bool" where
  "is_detected (Detected _ _ _) = True"
| "is_detected _ = False"

definition events :: "outcome list \<Rightarrow> nat" where
  "events outs = length (filter is_event outs)"

definition detections :: "outcome list \<Rightarrow> nat" where
  "detections outs = length (filter is_detected outs)"

text \<open>Lines 229 to 233: the reset key.\<close>

definition reset_capture :: "capture \<Rightarrow> capture" where
  "reset_capture s = s\<lparr>blink_sequence := [], is_blinking := False, consec_blinks := 0\<rparr>"

section \<open>Signal smoothing and the eye aspect ratio\<close>

text \<open>
  Lines 92 to 96 of \<^verbatim>\<open>register_pin.py\<close>: append the raw sample, drop the oldest one
  when more than five are held, and take \<^verbatim>\<open>np.mean\<close>. The history is never empty after
  the append; the source's fallback to the raw sample is kept as the other branch.
  \<^verbatim>\<open>np.mean\<close> of a list of Python floats adds the values one after the other in binary64,
  starting from zero, and divides the sum by their number.
\<close>

definition push_history :: "fl \<Rightarrow> fl list \<Rightarrow> fl list" where
  "push_history avg_ear h = (let h1 = h @ [avg_ear] in if 5 < length h1 then tl h1 else h1)"

definition mean64 :: "fl list \<Rightarrow> fl" where
  "mean64 xs = fdiv rnd64 (foldl (fadd rnd64) (Fin 0) xs) (Fin (real (length xs)))"

definition smooth :: "fl \<Rightarrow> fl list \<Rightarrow> fl list \<times> fl" where
  "smooth avg_ear h =
     (let h1 = push_history avg_ear h in (h1, if h1 \<noteq> [] then mean64 h1 else avg_ear))"

text \<open>The smoother fed a stream of raw samples, returning every smoothed sample.\<close>

fun run_smooth :: "fl list \<Rightarrow> fl list \<Rightarrow> fl list \<times> fl list" where
  "run_smooth h [] = (h, [])"
| "run_smooth h (x # xs) =
     (case smooth x h of (h1, y) \<Rightarrow>
        (case run_smooth h1 xs of (h2, ys) \<Rightarrow> (h2, y # ys)))"

text \<open>
  The exceptions that can leave the functions modelled here. \<open>DumpError\<close> stands for
  whatever a failing \<^verbatim>\<open>json.dump\<close> raises (an encoding error, or an \<^verbatim>\<open>OSError\<close> of the
  write).
\<close>

datatype error = IndexError | TypeError | OSError | DumpError

type_synonym point = "real \<times> real"

text \<open>
  \<^verbatim>\<open>calculate_ear\<close> of \<^verbatim>\<open>blink_utils.py\<close>. A point is a pair of finite coordinates, the
  values of the Python numbers passed. Line 77 converts every coordinate to \<^verbatim>\<open>float32\<close>.
  \<^verbatim>\<open>np.linalg.norm\<close> of a difference of two points is the square root of the dot product
  of the difference with itself, every operation rounded to \<^verbatim>\<open>float32\<close>. The sum, the
  product with \<^verbatim>\<open>2.0\<close> and the quotient of line 85 are \<^verbatim>\<open>float32\<close> operations (NumPy 2
  keeps the type of the NumPy scalar when the other operand is a Python float), and
  \<^verbatim>\<open>float\<close> then widens the result without changing it. The source indexes the points 0
  to 5, so a shorter list raises \<^verbatim>\<open>IndexError\<close>.
\<close>

definition to_float32 :: "point \<Rightarrow> fl \<times> fl" where
  "to_float32 p = (rnd32 (fst p), rnd32 (snd p))"

definition norm32 :: "fl \<times> fl \<Rightarrow> fl \<times> fl \<Rightarrow> fl" where
  "norm32 a b =
     (let dx = fsub rnd32 (fst a) (fst b);
          dy = fsub rnd32 (snd a) (snd b)
      in fsqrt rnd32 (fadd rnd32 (fmul rnd32 dx dx) (fmul rnd32 dy dy)))"

definition calculate_ear :: "point list \<Rightarrow> error + fl" where
  "calculate_ear eye_points =
     (if length eye_points < 6 then Inl IndexError
      else
        (let points = map to_float32 eye_points;
             A = norm32 (points ! 1) (points ! 5);
             B = norm32 (points ! 2) (points ! 4);
             C = norm32 (points ! 0) (points ! 3)
         in if C = Fin 0 then Inr (Fin 0)
            else Inr (fdiv rnd32 (fadd rnd32 A B) (fmul rnd32 (Fin 2) C))))"



section \<open>The user store of \<^verbatim>\<open>blink_utils.py\<close>\<close>

text \<open>
  The values \<^verbatim>\<open>json.load\<close> can return. A JSON object is a Python dict: an association
  list, read with \<^const>\<open>map_of\<close> and written with \<^const>\<open>AList.update\<close> (an existing key
  keeps its place, a new key goes to the end).
\<close>

datatype json =
  JNull
| JBool bool
| JInt int
| JFloat real
| JStr string
| JArr "json list"
| JObj "(string \<times> json) list"

text \<open>
  The file \<^verbatim>\<open>users.json\<close>: absent, present but \<^verbatim>\<open>open\<close> or \<^verbatim>\<open>json.load\<close> raises,
  or present and parsed to a value.
\<close>

datatype users_file = Missing | Corrupt | Parsed json

definition empty_store :: "(string \<times> json) list" where
  "empty_store = [(''users'', JObj [])]"

fun is_dict :: "json \<Rightarrow> bool" where
  "is_dict (JObj _) = True"
| "is_dict _ = False"

definition load_users :: "users_file \<Rightarrow> (string \<times> json) list" where
  "load_users f =
     (case f of
        Missing \<Rightarrow> empty_store
      | Corrupt \<Rightarrow> empty_store
      | Parsed data \<Rightarrow>
          (case data of
             JObj kvs \<Rightarrow>
               (case map_of kvs ''users'' of
                  None \<Rightarrow> empty_store
                | Some u \<Rightarrow> if is_dict u then kvs else AList.update ''users'' (JObj []) kvs)
           | _ \<Rightarrow> empty_store))"

text \<open>
  \<^verbatim>\<open>save_users\<close> opens the file for writing, which truncates it, and then dumps the
  value. What the file system does is a parameter: the write goes through; or \<^verbatim>\<open>open\<close>
  raises and the file is as it was; or the dump raises after the file has been truncated,
  which leaves a partial text that does not parse.
\<close>

datatype write_outcome = Written | OpenFailed | DumpFailed

definition save_users ::
  "write_outcome \<Rightarrow> (string \<times> json) list \<Rightarrow> users_file \<Rightarrow> error option \<times> users_file" where
  "save_users w data f =
     (case w of
        Written \<Rightarrow> (None, Parsed (JObj data))
      | OpenFailed \<Rightarrow> (Some OSError, f)
      | DumpFailed \<Rightarrow> (Some DumpError, Corrupt))"

definition setdefault :: "string \<Rightarrow> json \<Rightarrow> (string \<times> json) list \<Rightarrow> (string \<times> json) list" where
  "setdefault k v d = (case map_of d k of None \<Rightarrow> d @ [(k, v)] | Some _ \<Rightarrow> d)"

text \<open>
  \<^verbatim>\<open>set_user_pin\<close>. The digest \<^verbatim>\<open>hash_pin\<close> (SHA-256 of the standard library) and the clock
  \<^verbatim>\<open>time.time()\<close> are parameters. Storing under a key of something that is not a dict
  raises \<^verbatim>\<open>TypeError\<close>. The result is the exception raised, if any, and the file
  afterwards.
\<close>

definition user_record :: "(string \<Rightarrow> string) \<Rightarrow> real \<Rightarrow> string \<Rightarrow> json" where
  "user_record hash_pin now pin_plain =
     JObj [(''pin_hash'', JStr (hash_pin pin_plain)),
           (''pin_length'', JInt (int (length pin_plain))),
           (''updated_at'', JFloat now)]"

definition set_user_pin ::
  "(string \<Rightarrow> string) \<Rightarrow> real \<Rightarrow> write_outcome \<Rightarrow> string \<Rightarrow> string \<Rightarrow> users_file
     \<Rightarrow> error option \<times> users_file" where
  "set_user_pin hash_pin now w username pin_plain f =
     (let db = setdefault ''users'' (JObj []) (load_users f) in
      case map_of db ''users'' of
        Some (JObj users) \<Rightarrow>
          save_users w
            (AList.update ''users''
               (JObj (AList.update username (user_record hash_pin now pin_plain) users)) db) f
      | _ \<Rightarrow> (Some TypeError, f))"

text \<open>The record of a user in a loaded store: \<^verbatim>\<open>db.get("users", {}).get(username)\<close>.\<close>

definition users_of :: "(string \<times> json) list \<Rightarrow> (string \<times> json) list" where
  "users_of db = (case map_of db ''users'' of Some (JObj users) \<Rightarrow> users | _ \<Rightarrow> [])"

definition get_user :: "users_file \<Rightarrow> string \<Rightarrow> json option" where
  "get_user f username = map_of (users_of (load_users f)) username"

text \<open>A stand-in digest, used only to evaluate the store operations on concrete inputs.\<close>

definition toy_digest :: "string \<Rightarrow> string" where
  "toy_digest pin = ''#'' @ pin"

section \<open>The registration script \<^verbatim>\<open>register_pin.main\<close>\<close>

text \<open>
  One iteration of the capture loop reads a frame: the eye points of the face found in it
  (the face mesh is created with \<^verbatim>\<open>max_num_faces=1\<close>, so there is at most one), the
  clock, and the key pressed. A failing \<^verbatim>\<open>cap.read()\<close> ends the loop, which is the end
  of the list of frames here. Drawing on the frame is left out.
\<close>

record frame =
  face :: "(point list \<times> point list) option"
  clock :: real
  key :: nat

text \<open>
  Lines 107 to 155 use the smoothed sample only in the test
  \<^verbatim>\<open>smooth_ear < EAR_THRESHOLD\<close> (and in prints of its value, which are not modelled). The
  test holds of minus infinity and fails of plus infinity and of not-a-number.
\<close>

definition blink_detect_float :: "fl \<Rightarrow> real \<Rightarrow> capture \<Rightarrow> capture \<times> outcome" where
  "blink_detect_float smooth_ear current_time s =
     (case smooth_ear of
        Fin x \<Rightarrow> blink_detect x current_time s
      | NInf \<Rightarrow> blink_detect (EAR_THRESHOLD - 1) current_time s
      | _ \<Rightarrow> blink_detect EAR_THRESHOLD current_time s)"

text \<open>Lines 85 to 155 for one detected face.\<close>

definition process_face :: "point list \<Rightarrow> point list \<Rightarrow> real \<Rightarrow> capture \<Rightarrow> error + capture" where
  "process_face left_eye right_eye current_time s =
     (case calculate_ear left_eye of
        Inl e \<Rightarrow> Inl e
      | Inr left_ear \<Rightarrow>
          (case calculate_ear right_eye of
             Inl e \<Rightarrow> Inl e
           | Inr right_ear \<Rightarrow>
               (let avg_ear = fdiv rnd64 (fadd rnd64 left_ear right_ear) (Fin 2) in
                case smooth avg_ear (ear_history s) of (h, smooth_ear) \<Rightarrow>
                  Inr (fst (blink_detect_float smooth_ear current_time
                              (s\<lparr>ear_history := h\<rparr>))))))"

text \<open>
  The loop of lines 69 to 237: the key \<^verbatim>\<open>q\<close> (113) leaves the loop, \<^verbatim>\<open>r\<close> (114)
  resets, and a full sequence leaves the loop.
\<close>

fun capture_loop :: "capture \<Rightarrow> frame list \<Rightarrow> error + capture" where
  "capture_loop s [] = Inr s"
| "capture_loop s (f # fs) =
     (case (case face f of
              None \<Rightarrow> Inr s
            | Some (left_eye, right_eye) \<Rightarrow> process_face left_eye right_eye (clock f) s) of
        Inl e \<Rightarrow> Inl e
      | Inr s1 \<Rightarrow>
          if key f = 113 then Inr s1
          else
            (let s2 = (if key f = 114 then reset_capture s1 else s1) in
             if MAX_BLINKS \<le> length (blink_sequence s2) then Inr s2
             else capture_loop s2 fs))"

text \<open>
  \<^verbatim>\<open>str.strip()\<close> removes the characters of which \<^verbatim>\<open>str.isspace()\<close> holds. A character
  here is a code point from 0 to 255, and among those the whitespace is: tab, line feed,
  vertical tab, form feed, carriage return, the four separators 28 to 31, space, next line
  (133) and no-break space (160).
\<close>

definition is_space :: "char \<Rightarrow> bool" where
  "is_space c = (of_char c \<in> {9, 10, 11, 12, 13, 28, 29, 30, 31, 32, 133, 160 :: nat})"

definition strip :: "string \<Rightarrow> string" where
  "strip s = rev (dropWhile is_space (rev (dropWhile is_space s)))"

text \<open>How \<^verbatim>\<open>main\<close> ends, with the message it prints last.\<close>

datatype ending =
  EmptyUsername
| NoCamera
| Registered string string
| Incomplete
| Raised error

text \<open>
  \<^verbatim>\<open>main\<close>, from the typed username, whether the camera opens, the frames read, the
  file \<^verbatim>\<open>users.json\<close> and what happens to a write of it; it returns how it ended and the
  file afterwards.
\<close>

definition main ::
  "(string \<Rightarrow> string) \<Rightarrow> real \<Rightarrow> write_outcome \<Rightarrow> string \<Rightarrow> bool \<Rightarrow> frame list \<Rightarrow> users_file
     \<Rightarrow> ending \<times> users_file" where
  "main hash_pin now w typed camera_opened frames f =
     (let username = strip typed in
      if username = [] then (EmptyUsername, f)
      else if \<not> camera_opened then (NoCamera, f)
      else
        (case capture_loop init_capture frames of
           Inl e \<Rightarrow> (Raised e, f)
         | Inr s \<Rightarrow>
             if MAX_BLINKS \<le> length (blink_sequence s) then
               (let pin_str = map BLINK_TO_DIGIT (blink_sequence s) in
                case set_user_pin hash_pin now w username pin_str f of
                  (Some e, f1) \<Rightarrow> (Raised e, f1)
                | (None, f1) \<Rightarrow> (Registered username pin_str, f1))
             else (Incomplete, f)))"

section \<open>Test streams\<close>

text \<open>
  Five closures of three frames each, every one followed by a reopening frame, ten seconds
  apart; as (smoothed sample, timestamp) pairs.
\<close>

definition five_blinks :: "(real \<times> real) list" where
  "five_blinks =
     [(0.2, 10), (0.2, 11), (0.2, 12), (0.3, 13),
      (0.2, 20), (0.2, 21), (0.2, 22), (0.3, 23),
      (0.2, 30), (0.2, 31), (0.2, 32), (0.3, 33),
      (0.2, 40), (0.2, 41), (0.2, 42), (0.3, 43),
      (0.2, 50), (0.2, 51), (0.2, 52), (0.3, 53)]"

text \<open>
  Frames for a run of the capture loop. Both eyes have the same six points: shut, the
  upper and lower lids coincide; open, they are five pixels apart on an eye ten pixels
  wide. No key is pressed (\<^verbatim>\<open>waitKey\<close> gives 255). The stream shuts and opens the eyes
  four times, one frame a second.
\<close>

definition closed_eye :: "point list" where
  "closed_eye = [(0, 0), (3, 0), (7, 0), (10, 0), (7, 0), (3, 0)]"

definition open_eye :: "point list" where
  "open_eye = [(0, 0), (3, 5), (7, 5), (10, 0), (7, 0), (3, 0)]"

definition shot :: "point list \<Rightarrow> real \<Rightarrow> frame" where
  "shot eye t = \<lparr>face = Some (eye, eye), clock = t, key = 255\<rparr>"

definition four_blinks :: "frame list" where
  "four_blinks =
     [shot closed_eye 1, shot closed_eye 2, shot closed_eye 3,
      shot open_eye 4, shot open_eye 5, shot open_eye 6,
      shot closed_eye 7, shot closed_eye 8, shot closed_eye 9, shot closed_eye 10, shot closed_eye 11,
      shot open_eye 12, shot open_eye 13, shot open_eye 14,
      shot closed_eye 15, shot closed_eye 16, shot closed_eye 17, shot closed_eye 18, shot closed_eye 19,
      shot open_eye 20, shot open_eye 21, shot open_eye 22,
      shot closed_eye 23, shot closed_eye 24, shot closed_eye 25, shot closed_eye 26, shot closed_eye 27,
      shot open_eye 28, shot open_eye 29, shot open_eye 30]"

section \<open>Properties of the detector\<close>

lemma run_detect_append:
  "run_detect s (fs @ gs) =
     (case run_detect s fs of (s1, outs1) \<Rightarrow>
        (case run_detect s1 gs of (s2, outs2) \<Rightarrow> (s2, outs1 @ outs2)))"
  by (induction fs arbitrary: s) (auto split: prod.splits)

lemma blink_detect_below:
  "e < EAR_THRESHOLD \<Longrightarrow>
   blink_detect e t s =
     (if \<not> is_blinking s \<and> CONSEC_FRAMES \<le> consec_blinks s + 1
         \<and> MIN_BLINK_INTERVAL < t - last_blink_time s
      then (s\<lparr>consec_blinks := consec_blinks s + 1, is_blinking := True, blink_start_time := t\<rparr>,
            BlinkStart)
      else (s\<lparr>consec_blinks := consec_blinks s + 1\<rparr>, Idle))"
  by (simp add: blink_detect_def Let_def)

lemma blink_detect_open_above:
  "EAR_THRESHOLD \<le> e \<Longrightarrow> \<not> is_blinking s \<Longrightarrow>
   blink_detect e t s = (s\<lparr>consec_blinks := 0\<rparr>, Idle)"
  by (simp add: blink_detect_def Let_def)

lemma blink_detect_closed_above:
  "EAR_THRESHOLD \<le> e \<Longrightarrow> is_blinking s \<Longrightarrow>
   blink_detect e t s =
     (if length (blink_sequence s) < MAX_BLINKS then
        (s\<lparr>consec_blinks := 0,
           blink_sequence := blink_sequence s @ [fst (classify (t - blink_start_time s))],
           last_blink_time := t, is_blinking := False\<rparr>,
         Detected (fst (classify (t - blink_start_time s))) (t - blink_start_time s)
           (snd (classify (t - blink_start_time s))))
      else (s\<lparr>consec_blinks := 0, is_blinking := False\<rparr>, Ignored (t - blink_start_time s)))"
  by (simp add: blink_detect_def Let_def split: prod.splits)

lemma closure_while_blinking:
  "is_blinking s \<Longrightarrow> \<forall>(e, t) \<in> set fs. e < EAR_THRESHOLD \<Longrightarrow>
   run_detect s fs = (s\<lparr>consec_blinks := consec_blinks s + length fs\<rparr>, replicate (length fs) Idle)"
proof (induction fs arbitrary: s)
  case Nil
  then show ?case by simp
next
  case (Cons f fs)
  obtain e t where f: "f = (e, t)" by (cases f)
  from Cons.prems f have e: "e < EAR_THRESHOLD" by simp
  let ?s1 = "s\<lparr>consec_blinks := consec_blinks s + 1\<rparr>"
  have step: "blink_detect e t s = (?s1, Idle)"
    using e Cons.prems(1) by (simp add: blink_detect_below)
  have "run_detect ?s1 fs =
          (?s1\<lparr>consec_blinks := consec_blinks ?s1 + length fs\<rparr>, replicate (length fs) Idle)"
    using Cons.prems by (intro Cons.IH) auto
  with step f show ?case by simp
qed

lemma closure_from_open:
  assumes "\<not> is_blinking s"
    and "\<forall>(e, t) \<in> set fs. e < EAR_THRESHOLD \<and> MIN_BLINK_INTERVAL < t - last_blink_time s"
  shows "is_blinking (fst (run_detect s fs)) = (fs \<noteq> [] \<and> CONSEC_FRAMES \<le> consec_blinks s + length fs)
       \<and> events (snd (run_detect s fs)) = 0
       \<and> detections (snd (run_detect s fs)) = 0
       \<and> blink_sequence (fst (run_detect s fs)) = blink_sequence s"
  using assms
proof (induction fs arbitrary: s)
  case Nil
  then show ?case by (simp add: events_def detections_def)
next
  case (Cons f fs)
  obtain e t where f: "f = (e, t)" by (cases f)
  from Cons.prems f have e: "e < EAR_THRESHOLD" and r: "MIN_BLINK_INTERVAL < t - last_blink_time s"
    by simp_all
  show ?case
  proof (cases "CONSEC_FRAMES \<le> consec_blinks s + 1")
    case True
    let ?s1 = "s\<lparr>consec_blinks := consec_blinks s + 1, is_blinking := True, blink_start_time := t\<rparr>"
    have step: "blink_detect e t s = (?s1, BlinkStart)"
      using e r True Cons.prems(1) by (simp add: blink_detect_below)
    have rest: "run_detect ?s1 fs =
        (?s1\<lparr>consec_blinks := consec_blinks ?s1 + length fs\<rparr>, replicate (length fs) Idle)"
      using Cons.prems(2) by (intro closure_while_blinking) auto
    from step rest f True show ?thesis
      by (simp add: events_def detections_def)
  next
    case False
    let ?s1 = "s\<lparr>consec_blinks := consec_blinks s + 1\<rparr>"
    have step: "blink_detect e t s = (?s1, Idle)"
      using e False by (simp add: blink_detect_below)
    have ih: "is_blinking (fst (run_detect ?s1 fs)) =
                (fs \<noteq> [] \<and> CONSEC_FRAMES \<le> consec_blinks ?s1 + length fs)
       \<and> events (snd (run_detect ?s1 fs)) = 0
       \<and> detections (snd (run_detect ?s1 fs)) = 0
       \<and> blink_sequence (fst (run_detect ?s1 fs)) = blink_sequence ?s1"
      using Cons.prems by (intro Cons.IH) auto
    from step ih f False show ?thesis
      by (auto simp: events_def detections_def split: prod.splits)
  qed
qed

lemma suppressed_run:
  assumes "\<not> is_blinking s"
    and "\<forall>(e, t) \<in> set fs. e < EAR_THRESHOLD \<longrightarrow> t - last_blink_time s \<le> MIN_BLINK_INTERVAL"
  shows "snd (run_detect s fs) = replicate (length fs) Idle
       \<and> \<not> is_blinking (fst (run_detect s fs))
       \<and> blink_sequence (fst (run_detect s fs)) = blink_sequence s
       \<and> last_blink_time (fst (run_detect s fs)) = last_blink_time s"
  using assms
proof (induction fs arbitrary: s)
  case Nil
  then show ?case by simp
next
  case (Cons f fs)
  obtain e t where f: "f = (e, t)" by (cases f)
  obtain s1 where step: "blink_detect e t s = (s1, Idle)"
    and s1: "\<not> is_blinking s1" "blink_sequence s1 = blink_sequence s"
      "last_blink_time s1 = last_blink_time s"
  proof (cases "e < EAR_THRESHOLD")
    case True
    with Cons.prems f have "t - last_blink_time s \<le> MIN_BLINK_INTERVAL" by simp
    with True Cons.prems(1) that show ?thesis by (simp add: blink_detect_below)
  next
    case False
    with Cons.prems(1) that show ?thesis by (simp add: blink_detect_open_above)
  qed
  have "snd (run_detect s1 fs) = replicate (length fs) Idle
       \<and> \<not> is_blinking (fst (run_detect s1 fs))
       \<and> blink_sequence (fst (run_detect s1 fs)) = blink_sequence s1
       \<and> last_blink_time (fst (run_detect s1 fs)) = last_blink_time s1"
    using Cons.prems s1 by (intro Cons.IH) auto
  with step s1 f show ?case by (auto split: prod.splits)
qed

lemma blink_detect_length:
  "length (blink_sequence s) \<le> MAX_BLINKS \<Longrightarrow>
   length (blink_sequence (fst (blink_detect e t s))) =
     min MAX_BLINKS (length (blink_sequence s) + (if is_event (snd (blink_detect e t s)) then 1 else 0))"
  by (simp add: blink_detect_def Let_def split: prod.splits)

lemma run_detect_length:
  "length (blink_sequence s) \<le> MAX_BLINKS \<Longrightarrow>
   length (blink_sequence (fst (run_detect s fs))) =
     min MAX_BLINKS (length (blink_sequence s) + events (snd (run_detect s fs)))"
proof (induction fs arbitrary: s)
  case Nil
  then show ?case by (simp add: events_def)
next
  case (Cons f fs)
  obtain e t where f: "f = (e, t)" by (cases f)
  obtain s1 out where step: "blink_detect e t s = (s1, out)" by (cases "blink_detect e t s")
  from blink_detect_length [OF Cons.prems, of e t] step
  have len1: "length (blink_sequence s1) =
      min MAX_BLINKS (length (blink_sequence s) + (if is_event out then 1 else 0))" by simp
  then have "length (blink_sequence s1) \<le> MAX_BLINKS" by simp
  from Cons.IH [OF this]
  have "length (blink_sequence (fst (run_detect s1 fs))) =
     min MAX_BLINKS (length (blink_sequence s1) + events (snd (run_detect s1 fs)))" .
  with len1 step f show ?case
    by (auto simp: events_def split: prod.splits)
qed

subsection \<open>Debounce: a closure registers once it lasts three frames\<close>

text \<open>
  Claim C1. The detector starts open (not blinking) with the below-threshold counter at 0,
  and the refractory interval has elapsed at every frame of the run. After \<open>N\<close> frames
  below \<^const>\<open>EAR_THRESHOLD\<close> and one frame at or above it, exactly one blink event has been
  produced if \<open>N\<close> is at least \<^const>\<open>CONSEC_FRAMES\<close>, and none otherwise. When the
  sequence has room, the event is a detected blink and the sequence grows by that one
  symbol.
\<close>

theorem closure_then_reopen_events:
  assumes "\<not> is_blinking s" and "consec_blinks s = 0"
    and "\<forall>(e, t) \<in> set fs. e < EAR_THRESHOLD \<and> MIN_BLINK_INTERVAL < t - last_blink_time s"
    and "EAR_THRESHOLD \<le> e_up"
  shows "events (snd (run_detect s (fs @ [(e_up, t_up)]))) =
           (if CONSEC_FRAMES \<le> length fs then 1 else 0)
       \<and> (length (blink_sequence s) < MAX_BLINKS \<longrightarrow>
            detections (snd (run_detect s (fs @ [(e_up, t_up)]))) =
              (if CONSEC_FRAMES \<le> length fs then 1 else 0)
            \<and> length (blink_sequence (fst (run_detect s (fs @ [(e_up, t_up)])))) =
                length (blink_sequence s) + (if CONSEC_FRAMES \<le> length fs then 1 else 0))"
proof -
  obtain s1 outs1 where run1: "run_detect s fs = (s1, outs1)" by (cases "run_detect s fs")
  from closure_from_open [OF assms(1) assms(3)] run1 assms(2)
  have s1: "is_blinking s1 = (CONSEC_FRAMES \<le> length fs)" "events outs1 = 0"
    "detections outs1 = 0" "blink_sequence s1 = blink_sequence s"
    by (auto simp: CONSEC_FRAMES_def)
  show ?thesis
  proof (cases "CONSEC_FRAMES \<le> length fs")
    case True
    with s1 have b: "is_blinking s1" by simp
    from blink_detect_closed_above [OF assms(4) b, of t_up] s1 run1 True
    show ?thesis
      by (auto simp: run_detect_append events_def detections_def)
  next
    case False
    with s1 have b: "\<not> is_blinking s1" by simp
    from blink_detect_open_above [OF assms(4) b, of t_up] s1 run1 False
    show ?thesis
      by (auto simp: run_detect_append events_def detections_def)
  qed
qed

theorem closure_then_reopen_events_witness:
  "events (snd (run_detect init_capture [(0.2, 10), (0.2, 10.1), (0.2, 10.2), (0.3, 10.3)])) = 1
   \<and> detections (snd (run_detect init_capture [(0.2, 10), (0.2, 10.1), (0.2, 10.2), (0.3, 10.3)])) = 1
   \<and> length (blink_sequence (fst (run_detect init_capture [(0.2, 10), (0.2, 10.1), (0.2, 10.2), (0.3, 10.3)]))) = 1
   \<and> events (snd (run_detect init_capture [(0.2, 10), (0.2, 10.1), (0.3, 10.3)])) = 0"
  using closure_then_reopen_events [of init_capture "[(0.2, 10), (0.2, 10.1), (0.2, 10.2)]" "0.3" "10.3"]
    closure_then_reopen_events [of init_capture "[(0.2, 10), (0.2, 10.1)]" "0.3" "10.3"]
  by (simp add: init_capture_def EAR_THRESHOLD_def MIN_BLINK_INTERVAL_def CONSEC_FRAMES_def MAX_BLINKS_def)

subsection \<open>Refractory interval\<close>

text \<open>
  Claim C2, as stated, at a concrete run: the first blink ends at time 10; the second
  closure reaches its third frame at time 10.2, inside the refractory interval, and is not
  confirmed there. The closure lasts, the test is made again on every later frame, and at
  time 10.6 the closure is confirmed; on reopening at 10.7 a second blink is detected.
\<close>

theorem late_confirmation_counterexample:
  "10.2 - last_blink_time (fst (run_detect init_capture
        [(0.2, 9.7), (0.2, 9.8), (0.2, 9.9), (0.3, 10)])) \<le> MIN_BLINK_INTERVAL
   \<and> consec_blinks (fst (run_detect init_capture
        [(0.2, 9.7), (0.2, 9.8), (0.2, 9.9), (0.3, 10),
         (0.2, 10.1), (0.2, 10.15), (0.2, 10.2)])) = CONSEC_FRAMES
   \<and> snd (run_detect init_capture
        [(0.2, 9.7), (0.2, 9.8), (0.2, 9.9), (0.3, 10),
         (0.2, 10.1), (0.2, 10.15), (0.2, 10.2), (0.2, 10.4), (0.2, 10.6), (0.3, 10.7)]) =
       [Idle, Idle, BlinkStart, Detected Quick 0.1 CHR ''0'',
        Idle, Idle, Idle, Idle, BlinkStart, Detected Quick 0.1 CHR ''0'']"
  by (simp add: init_capture_def blink_detect_def classify_def EAR_THRESHOLD_def
      MIN_BLINK_INTERVAL_def CONSEC_FRAMES_def MAX_BLINKS_def BLINK_DURATION_THRESHOLD_def)

text \<open>
  Claim C2, amended. The detector is open, and every frame of the second closure (not only
  the one on which the counter reaches \<^const>\<open>CONSEC_FRAMES\<close>) has a timestamp within
  \<^const>\<open>MIN_BLINK_INTERVAL\<close> of the end of the last blink. Then the closure is never
  confirmed, the reopening frame produces no event, and the sequence is unchanged.
\<close>

theorem refractory_suppresses_closure:
  assumes "\<not> is_blinking s"
    and "\<forall>(e, t) \<in> set fs. e < EAR_THRESHOLD \<and> t - last_blink_time s \<le> MIN_BLINK_INTERVAL"
    and "EAR_THRESHOLD \<le> e_up"
  shows "snd (run_detect s (fs @ [(e_up, t_up)])) = replicate (length fs + 1) Idle
       \<and> (\<forall>k \<le> length fs. \<not> is_blinking (fst (run_detect s (take k fs))))
       \<and> \<not> is_blinking (fst (run_detect s (fs @ [(e_up, t_up)])))
       \<and> events (snd (run_detect s (fs @ [(e_up, t_up)]))) = 0
       \<and> blink_sequence (fst (run_detect s (fs @ [(e_up, t_up)]))) = blink_sequence s"
proof -
  have all: "\<forall>(e, t) \<in> set (fs @ [(e_up, t_up)]).
      e < EAR_THRESHOLD \<longrightarrow> t - last_blink_time s \<le> MIN_BLINK_INTERVAL"
    using assms(2,3) by auto
  note whole = suppressed_run [OF assms(1) all]
  have pre: "\<not> is_blinking (fst (run_detect s (take k fs)))" for k
  proof -
    have "\<forall>(e, t) \<in> set (take k fs).
        e < EAR_THRESHOLD \<longrightarrow> t - last_blink_time s \<le> MIN_BLINK_INTERVAL"
      using assms(2) by (auto dest: in_set_takeD)
    from suppressed_run [OF assms(1) this] show ?thesis by simp
  qed
  from whole pre show ?thesis by (simp add: events_def)
qed

theorem refractory_suppresses_closure_witness:
  "snd (run_detect (fst (run_detect init_capture [(0.2, 9.7), (0.2, 9.8), (0.2, 9.9), (0.3, 10)]))
        [(0.2, 10.1), (0.2, 10.15), (0.2, 10.2), (0.3, 10.3)]) = [Idle, Idle, Idle, Idle]
   \<and> blink_sequence (fst (run_detect (fst (run_detect init_capture
          [(0.2, 9.7), (0.2, 9.8), (0.2, 9.9), (0.3, 10)]))
        [(0.2, 10.1), (0.2, 10.15), (0.2, 10.2), (0.3, 10.3)])) = [Quick]"
  using refractory_suppresses_closure
    [of "fst (run_detect init_capture [(0.2, 9.7), (0.2, 9.8), (0.2, 9.9), (0.3, 10)])"
        "[(0.2, 10.1), (0.2, 10.15), (0.2, 10.2)]" "0.3" "10.3"]
  by (simp add: init_capture_def blink_detect_def classify_def EAR_THRESHOLD_def
      MIN_BLINK_INTERVAL_def CONSEC_FRAMES_def MAX_BLINKS_def BLINK_DURATION_THRESHOLD_def)

subsection \<open>Classification by duration\<close>

text \<open>
  Claim C4. A blink of duration \<open>d\<close> is classified quick, digit 0, when \<open>d\<close> is below 0.4
  seconds, and long, digit 1, otherwise; the digits are those of \<^const>\<open>BLINK_TO_DIGIT\<close>.
  So 0.39 is quick, and 0.4 and 0.41 are long. On the reopening frame of a confirmed
  closure, with room in the sequence, the detector reports and appends the class of the
  time since the closure was confirmed.
\<close>

theorem classify_threshold:
  "classify d = (if d < 0.4 then (Quick, BLINK_TO_DIGIT Quick) else (Long, BLINK_TO_DIGIT Long))
   \<and> fst (classify d) = (if d < 0.4 then Quick else Long)
   \<and> snd (classify d) = (if d < 0.4 then CHR ''0'' else CHR ''1'')
   \<and> classify 0.39 = (Quick, CHR ''0'')
   \<and> classify 0.4 = (Long, CHR ''1'')
   \<and> classify 0.41 = (Long, CHR ''1'')
   \<and> (is_blinking s \<and> length (blink_sequence s) < MAX_BLINKS \<and> EAR_THRESHOLD \<le> e \<longrightarrow>
        snd (blink_detect e t s) =
          Detected (fst (classify (t - blink_start_time s))) (t - blink_start_time s)
                   (snd (classify (t - blink_start_time s)))
        \<and> blink_sequence (fst (blink_detect e t s)) =
            blink_sequence s @ [fst (classify (t - blink_start_time s))])"
  by (simp add: classify_def BLINK_DURATION_THRESHOLD_def blink_detect_def Let_def)

theorem classify_threshold_witness:
  "snd (blink_detect 0.3 12.4
          (fst (run_detect init_capture [(0.2, 10), (0.2, 11), (0.2, 12)]))) =
     Detected Long 0.4 CHR ''1''
   \<and> blink_sequence (fst (blink_detect 0.3 12.4
          (fst (run_detect init_capture [(0.2, 10), (0.2, 11), (0.2, 12)])))) = [Long]"
  using classify_threshold
    [of "0.4" "fst (run_detect init_capture [(0.2, 10), (0.2, 11), (0.2, 12)])" "0.3" "12.4"]
  by (simp add: init_capture_def blink_detect_def classify_def EAR_THRESHOLD_def
      MIN_BLINK_INTERVAL_def CONSEC_FRAMES_def MAX_BLINKS_def BLINK_DURATION_THRESHOLD_def)

subsection \<open>The sequence is capped\<close>

text \<open>
  Claim C5. Started with at most \<^const>\<open>MAX_BLINKS\<close> symbols, the sequence after any run
  holds the symbols it had plus one for every blink event, capped at \<^const>\<open>MAX_BLINKS\<close>:
  its length never exceeds 4, and five blinks from the empty sequence leave exactly 4. A
  frame on a full sequence leaves it as it is. The reset key empties the sequence.
\<close>

theorem sequence_capped:
  assumes "length (blink_sequence s) \<le> MAX_BLINKS"
  shows "length (blink_sequence (fst (run_detect s fs))) =
           min MAX_BLINKS (length (blink_sequence s) + events (snd (run_detect s fs)))
       \<and> length (blink_sequence (fst (run_detect s fs))) \<le> MAX_BLINKS
       \<and> (length (blink_sequence s) = MAX_BLINKS \<longrightarrow>
            blink_sequence (fst (blink_detect e t s)) = blink_sequence s)
       \<and> length (blink_sequence (reset_capture s)) = 0"
proof -
  have "blink_sequence (fst (blink_detect e t s)) = blink_sequence s"
    if "length (blink_sequence s) = MAX_BLINKS"
    using that by (simp add: blink_detect_def Let_def)
  with run_detect_length [OF assms, of fs] show ?thesis
    by (simp add: reset_capture_def)
qed

theorem sequence_capped_witness:
  "events (snd (run_detect init_capture five_blinks)) = 5
   \<and> length (blink_sequence (fst (run_detect init_capture five_blinks))) = 4
   \<and> is_blinking (fst (run_detect init_capture (take 19 five_blinks)))
   \<and> blink_sequence (fst (blink_detect 0.3 53 (fst (run_detect init_capture (take 19 five_blinks)))))
       = [Long, Long, Long, Long]
   \<and> length (blink_sequence (fst (run_detect init_capture (take 8 five_blinks)))) = 2
   \<and> length (blink_sequence (reset_capture (fst (run_detect init_capture (take 8 five_blinks))))) = 0"
  using sequence_capped [of init_capture five_blinks]
    sequence_capped [of "fst (run_detect init_capture (take 19 five_blinks))" "[]" "0.3" "53"]
    sequence_capped [of "fst (run_detect init_capture (take 8 five_blinks))" "[]"]
  by (simp add: five_blinks_def init_capture_def blink_detect_def classify_def EAR_THRESHOLD_def
      events_def MIN_BLINK_INTERVAL_def CONSEC_FRAMES_def MAX_BLINKS_def
      BLINK_DURATION_THRESHOLD_def)

subsection \<open>A blink that ends on a full sequence\<close>

text \<open>
  Claim C9. A confirmed closure is in progress and the sequence already holds
  \<^const>\<open>MAX_BLINKS\<close> symbols. The reopening frame appends nothing, clears
  \<^const>\<open>is_blinking\<close>, sets the below-threshold counter to 0 and leaves
  \<^const>\<open>last_blink_time\<close> as it was, so the dropped blink does not move the refractory
  window.
\<close>

theorem full_sequence_drops_blink:
  assumes "is_blinking s" and "length (blink_sequence s) = MAX_BLINKS" and "EAR_THRESHOLD \<le> e"
  shows "blink_detect e t s =
           (s\<lparr>consec_blinks := 0, is_blinking := False\<rparr>, Ignored (t - blink_start_time s))
       \<and> blink_sequence (fst (blink_detect e t s)) = blink_sequence s
       \<and> \<not> is_blinking (fst (blink_detect e t s))
       \<and> consec_blinks (fst (blink_detect e t s)) = 0
       \<and> last_blink_time (fst (blink_detect e t s)) = last_blink_time s"
  using assms by (simp add: blink_detect_def Let_def)

theorem full_sequence_drops_blink_witness:
  "snd (blink_detect 0.3 53 (fst (run_detect init_capture (take 19 five_blinks)))) = Ignored 1
   \<and> blink_sequence (fst (blink_detect 0.3 53 (fst (run_detect init_capture (take 19 five_blinks)))))
       = [Long, Long, Long, Long]
   \<and> last_blink_time (fst (blink_detect 0.3 53 (fst (run_detect init_capture (take 19 five_blinks)))))
       = 43"
  using full_sequence_drops_blink
    [of "fst (run_detect init_capture (take 19 five_blinks))" "0.3" "53"]
  by (simp add: five_blinks_def init_capture_def blink_detect_def classify_def EAR_THRESHOLD_def
      MIN_BLINK_INTERVAL_def CONSEC_FRAMES_def MAX_BLINKS_def BLINK_DURATION_THRESHOLD_def)

section \<open>Properties of the floating-point model\<close>

text \<open>
  The rules that evaluate a rounding on a numeral.
\<close>

lemmas fl_eval = rnd32_def rnd64_def rnd_def expo_def rne_def pow2_def bits.simps Let_def

text \<open>
  \<^const>\<open>expo\<close> is the binary exponent, \<^const>\<open>rne\<close> is within a half of its argument, and
  so a finite rounding is within half a spacing of the real it rounds.
\<close>

lemma bits_bounds: "0 < n \<Longrightarrow> 2 ^ (bits n - 1) \<le> n \<and> n < 2 ^ bits n"
proof (induction n rule: bits.induct)
  case (1 n)
  show ?case
  proof (cases "n div 2 = 0")
    case True
    with "1.prems" have "n = 1" by (simp add: div_eq_0_iff) 
    then show ?thesis by (simp add: bits.simps)
  next
    case False
    then have pos: "0 < n div 2" by simp
    from "1.IH" [OF _ pos] "1.prems"
    have ih: "2 ^ (bits (n div 2) - 1) \<le> n div 2" "n div 2 < 2 ^ bits (n div 2)" by simp_all
    have b: "bits n = Suc (bits (n div 2))" using "1.prems" by (subst bits.simps) simp
    have bp: "0 < bits (n div 2)" using pos by (subst bits.simps) simp
    then obtain k where k: "bits (n div 2) = Suc k" by (cases "bits (n div 2)") auto
    from ih k have "2 * 2 ^ k \<le> 2 * (n div 2)" by simp
    also have "\<dots> \<le> n" by simp
    finally have lo: "2 ^ (bits n - 1) \<le> n" using b k by simp
    from ih(2) have "Suc (n div 2) \<le> 2 ^ bits (n div 2)" by simp
    then have "2 * Suc (n div 2) \<le> 2 * 2 ^ bits (n div 2)" by (rule mult_le_mono2)
    moreover have "n < 2 * Suc (n div 2)" by presburger
    ultimately have hi: "n < 2 ^ bits n" using b by simp
    from lo hi show ?thesis ..
  qed
qed

lemma expo_bracket:
  assumes "x \<noteq> 0"
  shows "pow2 (expo x) \<le> \<bar>x\<bar> \<and> \<bar>x\<bar> < pow2 (expo x + 1)"
proof (cases "1 \<le> \<bar>x\<bar>")
  case True
  define n where "n = nat \<lfloor>\<bar>x\<bar>\<rfloor>"
  have n1: "0 < n" using True by (simp add: n_def)
  have nx: "real n \<le> \<bar>x\<bar>" "\<bar>x\<bar> < real n + 1"
    using True by (simp_all add: n_def)
  from bits_bounds [OF n1] have b: "2 ^ (bits n - 1) \<le> n" "n < 2 ^ bits n" by simp_all
  have bp: "0 < bits n" using n1 by (subst bits.simps) simp
  have e: "expo x = int (bits n) - 1" using True by (simp add: expo_def n_def)
  have "(2 :: real) ^ (bits n - 1) \<le> real n"
    using b(1) by (metis of_nat_le_iff of_nat_numeral of_nat_power)
  then have lo: "(2 :: real) ^ (bits n - 1) \<le> \<bar>x\<bar>" using nx(1) by linarith
  have "real (Suc n) \<le> (2 :: real) ^ bits n"
    using b(2) by (metis Suc_leI of_nat_le_iff of_nat_numeral of_nat_power)
  then have hi: "\<bar>x\<bar> < (2 :: real) ^ bits n" using nx(2) by simp
  have "nat (int (bits n) - 1) = bits n - 1" by simp
  with lo hi e bp show ?thesis by (simp add: pow2_def)
next
  case False
  define y where "y = 1 / \<bar>x\<bar>"
  have xp: "0 < \<bar>x\<bar>" "\<bar>x\<bar> < 1" using assms False by simp_all
  then have y1: "1 < y" by (simp add: y_def)
  define m where "m = nat (\<lceil>y\<rceil> - 1)"
  have cy: "2 \<le> \<lceil>y\<rceil>" using y1 by linarith
  then have m1: "0 < m" by (simp add: m_def)
  have my: "real m < y" "y \<le> real m + 1"
    using cy by (simp_all add: m_def) linarith+
  from bits_bounds [OF m1] have b: "2 ^ (bits m - 1) \<le> m" "m < 2 ^ bits m" by simp_all
  have bp: "0 < bits m" using m1 by (subst bits.simps) simp
  have e: "expo x = - int (bits m)" using False by (simp add: expo_def m_def y_def)
  have "real (Suc m) \<le> (2 :: real) ^ bits m"
    using b(2) by (metis Suc_leI of_nat_le_iff of_nat_numeral of_nat_power)
  then have "y \<le> 2 ^ bits m" using my(2) by simp
  then have lo: "1 / 2 ^ bits m \<le> \<bar>x\<bar>"
    using xp(1) by (simp add: y_def field_simps)
  have "(2 :: real) ^ (bits m - 1) \<le> real m"
    using b(1) by (metis of_nat_le_iff of_nat_numeral of_nat_power)
  then have "(2 :: real) ^ (bits m - 1) < y" using my(1) by linarith
  then have hi: "\<bar>x\<bar> < 1 / 2 ^ (bits m - 1)"
    using xp(1) by (simp add: y_def field_simps)
  have "nat (int (bits m) - 1) = bits m - 1" by simp
  show ?thesis
  proof (cases "bits m = 1")
    case True
    with lo hi e show ?thesis by (simp add: pow2_def)
  next
    case False
    with bp have "1 < bits m" by simp
    then have "nat (int (bits m) - 1) = bits m - 1" "\<not> 0 \<le> 1 - int (bits m)" by simp_all
    with lo hi e show ?thesis by (simp add: pow2_def)
  qed
qed

lemma rne_nearest: "\<bar>real_of_int (rne y) - y\<bar> \<le> 1 / 2"
  by (simp add: rne_def Let_def)

lemma pow2_pos: "0 < pow2 k"
  by (simp add: pow2_def)

lemma rnd_nearest:
  assumes "rnd p emin emax x = Fin r"
  shows "\<bar>r - x\<bar> \<le> pow2 (max (expo x) emin - int p + 1) / 2"
proof (cases "x = 0")
  case True
  with assms have "r = 0" by (simp add: rnd_def)
  with True show ?thesis using pow2_pos [of "max (expo 0) emin - int p + 1"] by simp
next
  case False
  define q where "q = pow2 (max (expo x) emin - int p + 1)"
  have q: "0 < q" by (simp add: q_def pow2_pos)
  from assms False have r: "r = of_int (rne (x / q)) * q"
    by (simp add: rnd_def Let_def q_def split: if_splits)
  have "r - x = (of_int (rne (x / q)) - x / q) * q"
    using q by (simp add: r field_simps)
  then have "\<bar>r - x\<bar> = \<bar>of_int (rne (x / q)) - x / q\<bar> * q"
    using q by (simp add: abs_mult)
  also have "\<dots> \<le> 1 / 2 * q"
    using rne_nearest [of "x / q"] q by (intro mult_right_mono) simp_all
  finally show ?thesis by (simp add: q_def)
qed

section \<open>Properties of the eye aspect ratio\<close>





section \<open>Properties of the smoother\<close>

lemma push_history_drop:
  "length h \<le> 5 \<Longrightarrow> push_history x h = drop (length h + 1 - 5) (h @ [x])"
proof (cases "length h = 5")
  case True
  then have "h \<noteq> []" by auto
  with True show ?thesis by (simp add: push_history_def Let_def drop_Suc)
next
  case False
  assume "length h \<le> 5"
  with False show ?thesis by (simp add: push_history_def Let_def)
qed

lemma push_history_length: "length h \<le> 5 \<Longrightarrow> length (push_history x h) = min 5 (length h + 1)"
  by (auto simp: push_history_def Let_def)

lemma run_smooth_append:
  "run_smooth h (xs @ ys) =
     (case run_smooth h xs of (h1, out1) \<Rightarrow>
        (case run_smooth h1 ys of (h2, out2) \<Rightarrow> (h2, out1 @ out2)))"
  by (induction xs arbitrary: h) (auto split: prod.splits)

lemma run_smooth_history:
  "length h \<le> 5 \<Longrightarrow>
   fst (run_smooth h xs) = drop (length h + length xs - 5) (h @ xs)"
proof (induction xs arbitrary: h)
  case Nil
  then show ?case by simp
next
  case (Cons x xs)
  let ?h1 = "push_history x h"
  have len: "length ?h1 = min 5 (length h + 1)" and le: "length ?h1 \<le> 5"
    using Cons.prems by (simp_all add: push_history_length)
  have "fst (run_smooth h (x # xs)) = fst (run_smooth ?h1 xs)"
    by (simp add: smooth_def Let_def split: prod.splits)
  also have "\<dots> = drop (length ?h1 + length xs - 5) (?h1 @ xs)"
    by (rule Cons.IH [OF le])
  also have "?h1 @ xs = drop (length h + 1 - 5) (h @ x # xs)"
    using Cons.prems by (simp add: push_history_drop)
  also have "drop (length ?h1 + length xs - 5) (drop (length h + 1 - 5) (h @ x # xs)) =
      drop (length h + length (x # xs) - 5) (h @ x # xs)"
  proof -
    have "length ?h1 + length xs - 5 + (length h + 1 - 5) = length h + length (x # xs) - 5"
      using Cons.prems len by (simp add: min_def add.commute)
    then show ?thesis by (simp only: drop_drop)
  qed
  finally show ?case .
qed

lemma replicate5: "replicate 5 v = [v, v, v, v, v]"
  by (simp add: numeral_eq_Suc)

lemma mean64_exact:
  assumes "rnd64 x = Fin x" and "rnd64 (2 * x) = Fin (2 * x)" and "rnd64 (3 * x) = Fin (3 * x)"
    and "rnd64 (4 * x) = Fin (4 * x)" and "rnd64 (5 * x) = Fin (5 * x)"
  shows "mean64 (replicate 5 (Fin x)) = Fin x"
proof -
  have a: "x + x = 2 * x" "2 * x + x = 3 * x" "3 * x + x = 4 * x" "4 * x + x = 5 * x"
    by simp_all
  show ?thesis
    by (simp add: mean64_def replicate5 a assms)
qed

lemma smooth_window:
  assumes "length h \<le> 5" and "5 \<le> n"
  shows "fst (run_smooth h (replicate n v)) = replicate 5 v
       \<and> last (snd (run_smooth h (replicate n v))) = mean64 (replicate 5 v)"
proof -
  have hist: "fst (run_smooth h (replicate n v)) = replicate 5 v"
    using assms by (simp add: run_smooth_history)
  obtain m where n: "n = Suc m" using assms(2) by (cases n) auto
  obtain h1 out1 where r1: "run_smooth h (replicate m v) = (h1, out1)"
    by (cases "run_smooth h (replicate m v)")
  have split: "replicate n v = replicate m v @ [v]"
    using n by (simp add: replicate_append_same)
  have run: "run_smooth h (replicate n v) = (push_history v h1, out1 @ [snd (smooth v h1)])"
    by (simp add: split run_smooth_append r1 smooth_def Let_def)
  with hist have "push_history v h1 = replicate 5 v" by simp
  then have "snd (smooth v h1) = mean64 (replicate 5 v)"
    by (simp add: smooth_def Let_def replicate5)
  with run hist show ?thesis by simp
qed

text \<open>
  Claim C8, as stated, at a concrete value: \<open>v\<close> is the binary64 number
  0.4303948820147119. After five frames of \<open>v\<close> the smoothed sample is the neighbouring
  binary64 number 0.4303948820147118: the sum of three copies is already rounded.
\<close>

theorem smooth_constant_rounding_counterexample:
  "rnd64 (1938326230263625 / 4503599627370496) = Fin (1938326230263625 / 4503599627370496)
   \<and> snd (run_smooth []
        [Fin (1938326230263625 / 4503599627370496), Fin (1938326230263625 / 4503599627370496),
         Fin (1938326230263625 / 4503599627370496), Fin (1938326230263625 / 4503599627370496),
         Fin (1938326230263625 / 4503599627370496)]) =
       [Fin (1938326230263625 / 4503599627370496), Fin (1938326230263625 / 4503599627370496),
        Fin (1938326230263625 / 4503599627370496), Fin (1938326230263625 / 4503599627370496),
        Fin (7753304921054499 / 18014398509481984)]
   \<and> (7753304921054499 / 18014398509481984 :: real) \<noteq> 1938326230263625 / 4503599627370496"
  by (simp add: smooth_def push_history_def mean64_def fl_eval)

text \<open>
  Claim C8, amended. The history holds at most five samples, as it always does in
  \<^verbatim>\<open>main\<close>. Fed at least five equal samples \<open>v\<close>, the window holds exactly five copies of
  \<open>v\<close> and the smoothed sample is the binary64 mean of that window. The mean is exactly
  \<open>v\<close> when \<open>v\<close> is finite and \<open>v\<close>, \<open>2v\<close>, \<open>3v\<close>, \<open>4v\<close> and \<open>5v\<close> are all binary64
  values, so that no addition rounds.
\<close>

theorem smooth_constant_stream:
  assumes "length h \<le> 5" and "5 \<le> n"
  shows "fst (run_smooth h (replicate n v)) = replicate 5 v
       \<and> last (snd (run_smooth h (replicate n v))) = mean64 (replicate 5 v)
       \<and> (\<forall>x. v = Fin x \<and> rnd64 x = Fin x \<and> rnd64 (2 * x) = Fin (2 * x)
              \<and> rnd64 (3 * x) = Fin (3 * x) \<and> rnd64 (4 * x) = Fin (4 * x)
              \<and> rnd64 (5 * x) = Fin (5 * x) \<longrightarrow>
            last (snd (run_smooth h (replicate n v))) = v)"
  using smooth_window [OF assms, of v] by (auto simp: mean64_exact)

theorem smooth_constant_stream_witness:
  "fst (run_smooth [Fin 1, Fin 2] (replicate 6 (Fin (1 / 4)))) = replicate 5 (Fin (1 / 4))
   \<and> last (snd (run_smooth [Fin 1, Fin 2] (replicate 6 (Fin (1 / 4))))) = Fin (1 / 4)"
proof -
  have r: "rnd64 (1 / 4) = Fin (1 / 4)" "rnd64 (2 * (1 / 4)) = Fin (2 * (1 / 4))"
    "rnd64 (3 * (1 / 4)) = Fin (3 * (1 / 4))" "rnd64 (4 * (1 / 4)) = Fin (4 * (1 / 4))"
    "rnd64 (5 * (1 / 4)) = Fin (5 * (1 / 4))"
    by (simp_all add: fl_eval)
  have "length [Fin 1, Fin 2] \<le> 5" "(5 :: nat) \<le> 6" by simp_all
  from smooth_constant_stream [OF this, of "Fin (1 / 4)"] r
  show ?thesis by blast
qed

section \<open>A run of the capture loop\<close>

text \<open>
  On the test stream the loop detects four long blinks and ends with a full sequence.
\<close>

lemma ear_closed: "calculate_ear closed_eye = Inr (Fin 0)"
proof -
  have s: "sqrt 100 = 10" using real_sqrt_abs [of 10] by simp
  have r: "rnd32 0 = Fin 0" "rnd32 3 = Fin 3" "rnd32 7 = Fin 7" "rnd32 10 = Fin 10"
    "rnd32 20 = Fin 20" "rnd32 100 = Fin 100" "rnd32 (- 10) = Fin (- 10)"
    by (simp_all add: fl_eval)
  show ?thesis
    by (simp add: closed_eye_def calculate_ear_def to_float32_def norm32_def Let_def r s)
qed

lemma ear_open: "calculate_ear open_eye = Inr (Fin (1 / 2))"
proof -
  have s: "sqrt 100 = 10" "sqrt 25 = 5"
    using real_sqrt_abs [of 10] real_sqrt_abs [of 5] by simp_all
  have r: "rnd32 0 = Fin 0" "rnd32 3 = Fin 3" "rnd32 7 = Fin 7" "rnd32 10 = Fin 10"
    "rnd32 20 = Fin 20" "rnd32 100 = Fin 100" "rnd32 (- 10) = Fin (- 10)"
    "rnd32 5 = Fin 5" "rnd32 25 = Fin 25" "rnd32 (1 / 2) = Fin (1 / 2)"
    by (simp_all add: fl_eval)
  show ?thesis
    by (simp add: open_eye_def calculate_ear_def to_float32_def norm32_def Let_def r s)
qed

lemma capture_four_blinks:
  "map_sum id blink_sequence (capture_loop init_capture four_blinks) = Inr [Long, Long, Long, Long]"
proof -
  have r: "rnd64 0 = Fin 0" "rnd64 (1 / 2) = Fin (1 / 2)" "rnd64 1 = Fin 1"
    "rnd64 (3 / 2) = Fin (3 / 2)" "rnd64 (1 / 8) = Fin (1 / 8)"
    "rnd64 (1 / 5) = Fin (3602879701896397 / 18014398509481984)"
    "rnd64 (3 / 10) = Fin (5404319552844595 / 18014398509481984)"
    "rnd64 (1 / 10) = Fin (3602879701896397 / 36028797018963968)"
    by (simp_all add: fl_eval)
  show ?thesis
    by (simp add: four_blinks_def shot_def init_capture_def process_face_def ear_closed ear_open
        smooth_def push_history_def mean64_def blink_detect_float_def blink_detect_def
        classify_def reset_capture_def r Let_def
        EAR_THRESHOLD_def MIN_BLINK_INTERVAL_def CONSEC_FRAMES_def MAX_BLINKS_def
        BLINK_DURATION_THRESHOLD_def)
qed

section \<open>Properties of the user store\<close>

lemma is_dict_iff: "is_dict u = (\<exists>us. u = JObj us)"
  by (cases u) simp_all

lemma load_users_has_users:
  "map_of (load_users f) ''users'' = Some (JObj (users_of (load_users f)))"
proof (cases f)
  case Missing
  then show ?thesis by (simp add: load_users_def empty_store_def users_of_def)
next
  case Corrupt
  then show ?thesis by (simp add: load_users_def empty_store_def users_of_def)
next
  case (Parsed data)
  show ?thesis
  proof (cases data)
    case (JObj kvs)
    show ?thesis
    proof (cases "map_of kvs ''users''")
      case None
      with Parsed JObj show ?thesis by (simp add: load_users_def empty_store_def users_of_def)
    next
      case (Some u)
      with Parsed JObj show ?thesis
        by (cases u) (simp_all add: load_users_def users_of_def update_conv')
    qed
  qed (simp_all add: Parsed load_users_def empty_store_def users_of_def)
qed

lemma set_user_pin_eq:
  "set_user_pin hash_pin now w username pin_plain f =
     save_users w
       (AList.update ''users''
          (JObj (AList.update username (user_record hash_pin now pin_plain)
                   (users_of (load_users f))))
          (load_users f)) f"
  using load_users_has_users [of f]
  by (simp add: set_user_pin_def setdefault_def Let_def)

lemma load_users_saved:
  "load_users (Parsed (JObj (AList.update ''users'' (JObj us) db))) =
     AList.update ''users'' (JObj us) db"
  by (simp add: load_users_def update_conv')

lemma users_of_update: "users_of (AList.update ''users'' (JObj us) db) = us"
  by (simp add: users_of_def update_conv')

subsection \<open>Loading a damaged store\<close>

text \<open>
  Claim C7, as stated, at a concrete file: an object whose \<^verbatim>\<open>users\<close> entry is a list and
  which has a second key. The value loaded keeps the second key, so it is not the store
  \<^verbatim>\<open>{"users": {}}\<close>.
\<close>

theorem load_users_extra_keys_counterexample:
  "load_users (Parsed (JObj [(''users'', JArr []), (''version'', JInt 2)])) =
     [(''users'', JObj []), (''version'', JInt 2)]
   \<and> load_users (Parsed (JObj [(''users'', JArr []), (''version'', JInt 2)])) \<noteq> empty_store"
  by (simp add: load_users_def empty_store_def)

text \<open>
  Claim C7, amended. Loading never fails. A file that is absent, unreadable, not a JSON
  object, or an object without a \<^verbatim>\<open>users\<close> key loads as \<^verbatim>\<open>{"users": {}}\<close>. An object
  whose \<^verbatim>\<open>users\<close> entry is not a mapping loads as that object with the entry replaced by
  the empty mapping: it has no users, and its other keys are kept.
\<close>

theorem load_users_recovers:
  "load_users Missing = empty_store
   \<and> load_users Corrupt = empty_store
   \<and> (\<not> is_dict data \<longrightarrow> load_users (Parsed data) = empty_store)
   \<and> (map_of kvs ''users'' = None \<longrightarrow> load_users (Parsed (JObj kvs)) = empty_store)
   \<and> (map_of kvs ''users'' = Some u \<and> \<not> is_dict u \<longrightarrow>
        load_users (Parsed (JObj kvs)) = AList.update ''users'' (JObj []) kvs
        \<and> users_of (load_users (Parsed (JObj kvs))) = []
        \<and> (\<forall>k. k \<noteq> ''users'' \<longrightarrow> map_of (load_users (Parsed (JObj kvs))) k = map_of kvs k))"
  by (cases data) (simp_all add: load_users_def users_of_def update_conv')

theorem load_users_recovers_witness:
  "load_users (Parsed (JArr [JInt 1])) = [(''users'', JObj [])]
   \<and> load_users (Parsed (JObj [(''version'', JInt 2)])) = [(''users'', JObj [])]
   \<and> load_users (Parsed (JObj [(''version'', JInt 2), (''users'', JStr ''x'')])) =
       [(''version'', JInt 2), (''users'', JObj [])]"
  using load_users_recovers [of "JArr [JInt 1]" "[(''version'', JInt 2)]" "JNull"]
    load_users_recovers [of "JNull" "[(''version'', JInt 2), (''users'', JStr ''x'')]" "JStr ''x''"]
  by (simp add: empty_store_def)

subsection \<open>Registering a PIN leaves the other users alone\<close>

text \<open>
  Claim C10, as stated, at a concrete call: the store holds a record for \<^verbatim>\<open>alice\<close>, and
  the dump of \<^const>\<open>save_users\<close> fails after the file has been opened for writing. The
  file is left unreadable and the record of \<^verbatim>\<open>alice\<close> is gone.
\<close>

theorem failed_dump_loses_users_counterexample:
  "get_user (Parsed (JObj [(''users'', JObj [(''alice'', JStr ''a'')])])) ''alice'' = Some (JStr ''a'')
   \<and> set_user_pin toy_digest 7 DumpFailed ''bob'' ''0101''
        (Parsed (JObj [(''users'', JObj [(''alice'', JStr ''a'')])])) = (Some DumpError, Corrupt)
   \<and> get_user (snd (set_user_pin toy_digest 7 DumpFailed ''bob'' ''0101''
        (Parsed (JObj [(''users'', JObj [(''alice'', JStr ''a'')])])))) ''alice'' = None"
  by (simp add: get_user_def users_of_def load_users_def save_users_def set_user_pin_def
      setdefault_def empty_store_def)

text \<open>
  Claim C10, amended. For every file and every username \<open>u\<close>, when the write goes through,
  \<^const>\<open>set_user_pin\<close> raises nothing and writes back the loaded store with only the entry
  of \<open>u\<close> among the users replaced: the record of \<open>u\<close> is the new one, the record of
  every other username is what loading the file gave before, and so is every other
  top-level key. When the file cannot be opened for writing, the exception is raised and
  the file is as it was. When the dump fails, the exception is raised and the file is left
  unreadable.
\<close>

theorem set_user_pin_frame:
  "set_user_pin hash_pin now Written u pin f =
     (None, Parsed (JObj (AList.update ''users''
        (JObj (AList.update u (user_record hash_pin now pin) (users_of (load_users f))))
        (load_users f))))
   \<and> get_user (snd (set_user_pin hash_pin now Written u pin f)) u =
       Some (user_record hash_pin now pin)
   \<and> (\<forall>v. v \<noteq> u \<longrightarrow>
        get_user (snd (set_user_pin hash_pin now Written u pin f)) v = get_user f v)
   \<and> (\<forall>k. k \<noteq> ''users'' \<longrightarrow>
        map_of (load_users (snd (set_user_pin hash_pin now Written u pin f))) k =
          map_of (load_users f) k)
   \<and> set_user_pin hash_pin now OpenFailed u pin f = (Some OSError, f)
   \<and> set_user_pin hash_pin now DumpFailed u pin f = (Some DumpError, Corrupt)"
  by (simp add: set_user_pin_eq save_users_def get_user_def load_users_saved users_of_update
      update_conv')

theorem set_user_pin_frame_witness:
  "get_user (Parsed (JObj [(''users'', JObj [(''alice'', JStr ''a''), (''bob'', JStr ''b'')])])) ''alice''
     = Some (JStr ''a'')
   \<and> set_user_pin toy_digest 7 Written ''bob'' ''0101''
       (Parsed (JObj [(''users'', JObj [(''alice'', JStr ''a''), (''bob'', JStr ''b'')])])) =
     (None, Parsed (JObj [(''users'', JObj [(''alice'', JStr ''a''),
        (''bob'', JObj [(''pin_hash'', JStr ''#0101''), (''pin_length'', JInt 4),
                        (''updated_at'', JFloat 7)])])]))
   \<and> get_user (snd (set_user_pin toy_digest 7 Written ''bob'' ''0101''
       (Parsed (JObj [(''users'', JObj [(''alice'', JStr ''a''), (''bob'', JStr ''b'')])]))))
       ''alice'' = Some (JStr ''a'')"
  using set_user_pin_frame [of toy_digest 7 "''bob''" "''0101''"
      "Parsed (JObj [(''users'', JObj [(''alice'', JStr ''a''), (''bob'', JStr ''b'')])])"]
  by (simp add: get_user_def users_of_def load_users_def user_record_def toy_digest_def)

subsection \<open>The empty username\<close>

text \<open>
  Claim C3, as stated, at a concrete call: \<^const>\<open>set_user_pin\<close> with the empty username
  on an absent file does not fail; it writes a record under the empty key.
\<close>

theorem set_user_pin_empty_username_counterexample:
  "set_user_pin toy_digest 7 Written '''' ''0101'' Missing =
     (None, Parsed (JObj [(''users'', JObj [('''',
        JObj [(''pin_hash'', JStr ''#0101''), (''pin_length'', JInt 4),
              (''updated_at'', JFloat 7)])])]))"
  by (simp add: set_user_pin_def setdefault_def load_users_def empty_store_def save_users_def
      user_record_def toy_digest_def)

text \<open>
  Claim C3, amended. The check is made by \<^const>\<open>main\<close>: when the typed username is empty
  after stripping, \<^const>\<open>main\<close> ends with the empty-username error and the file is as it
  was. Whenever \<^const>\<open>main\<close> registers a PIN, the username is the stripped input and is
  not empty.
\<close>

theorem main_rejects_empty_username:
  "(strip typed = [] \<longrightarrow>
      main hash_pin now w typed camera_opened frames f = (EmptyUsername, f))
   \<and> (fst (main hash_pin now w typed camera_opened frames f) = Registered u p \<longrightarrow>
        u = strip typed \<and> u \<noteq> [])"
  by (auto simp: main_def Let_def split: sum.splits if_splits prod.splits option.splits)

theorem main_rejects_empty_username_witness:
  "strip ''  '' = [] \<and> main toy_digest 7 Written ''  '' True [] Missing = (EmptyUsername, Missing)
   \<and> strip [CHR 0xA0, CHR '' '', CHR 0x85] = []
   \<and> main toy_digest 7 Written [CHR 0xA0, CHR '' '', CHR 0x85] True four_blinks Missing =
       (EmptyUsername, Missing)
   \<and> strip ([CHR 0xA0] @ ''alice'' @ [CHR 0xA0]) = ''alice''
   \<and> main toy_digest 7 Written ([CHR 0xA0] @ ''alice'' @ [CHR 0xA0]) True four_blinks Missing =
       (Registered ''alice'' ''1111'',
        Parsed (JObj [(''users'', JObj [(''alice'',
          JObj [(''pin_hash'', JStr ''#1111''), (''pin_length'', JInt 4),
                (''updated_at'', JFloat 7)])])]))"
proof -
  obtain s where s: "capture_loop init_capture four_blinks = Inr s"
    "blink_sequence s = [Long, Long, Long, Long]"
    using capture_four_blinks by (cases "capture_loop init_capture four_blinks") auto
  have a: "strip ([CHR 0xA0] @ ''alice'' @ [CHR 0xA0]) = ''alice''"
    by (simp add: strip_def is_space_def)
  have reg: "main toy_digest 7 Written ([CHR 0xA0] @ ''alice'' @ [CHR 0xA0]) True four_blinks Missing =
       (Registered ''alice'' ''1111'',
        Parsed (JObj [(''users'', JObj [(''alice'',
          JObj [(''pin_hash'', JStr ''#1111''), (''pin_length'', JInt 4),
                (''updated_at'', JFloat 7)])])]))"
    using a s
    by (simp add: main_def Let_def MAX_BLINKS_def set_user_pin_def setdefault_def
        load_users_def empty_store_def save_users_def user_record_def toy_digest_def)
  from main_rejects_empty_username [of "''  ''" toy_digest 7 Written True "[]" Missing]
    main_rejects_empty_username
      [of "[CHR 0xA0, CHR '' '', CHR 0x85]" toy_digest 7 Written True four_blinks Missing]
    main_rejects_empty_username
      [of "[CHR 0xA0] @ ''alice'' @ [CHR 0xA0]" toy_digest 7 Written True four_blinks Missing
          "''alice''" "''1111''"]
    a reg
  show ?thesis by (simp add: strip_def is_space_def)
qed

end
